theory Spec2Isabelle
  imports Complex_Main "HOL-Library.Char_ord" "HOL-Library.List_Lexorder"
begin

section \<open>JavaScript values used by the engines\<close>

text \<open>
  Finite JavaScript numbers are modelled as reals, decimal literals as the rationals they
  denote. The result of a division is the one place where the decision engine can leave
  the finite numbers, so \<open>/\<close> returns a \<open>jsnum\<close>: a finite quotient, \<open>NaN\<close> for
  \<open>0 / 0\<close>, and a signed infinity for a non-zero numerator over zero. The friction
  calculator receives its numbers from callers, so its metrics are \<open>jsnum\<close> values and its
  arithmetic is the arithmetic of \<open>jsnum\<close> below: \<open>NaN\<close> is contagious, infinities of
  opposite sign add to \<open>NaN\<close>, and zero times an infinity is \<open>NaN\<close>. Arithmetic on finite
  numbers is exact.
\<close>

datatype jsnum = Finite real | NaN | PosInfinity | NegInfinity

definition js_div :: "real \<Rightarrow> real \<Rightarrow> jsnum" where
  "js_div a b =
     (if b \<noteq> 0 then Finite (a / b)
      else if a = 0 then NaN
      else if 0 < a then PosInfinity
      else NegInfinity)"

text \<open>
  \<open>a < b\<close> where the left operand may be \<open>undefined\<close> (a property that the object does
  not have): \<open>undefined\<close> converts to \<open>NaN\<close>, and every comparison with \<open>NaN\<close> is false.
\<close>

definition js_lt_undef :: "real option \<Rightarrow> real \<Rightarrow> bool" where
  "js_lt_undef a b = (case a of None \<Rightarrow> False | Some v \<Rightarrow> v < b)"










text \<open>
  \<open>Array.prototype.sort\<close> with a comparator is stable: an element moves in front of
  another only when the comparator is positive for the pair in their current order.
  Insertion from the right is such a sort.
\<close>

fun js_insert :: "('a \<Rightarrow> 'a \<Rightarrow> int) \<Rightarrow> 'a \<Rightarrow> 'a list \<Rightarrow> 'a list" where
  "js_insert cmp x [] = [x]"
| "js_insert cmp x (y # ys) =
     (if cmp x y \<le> 0 then x # y # ys else y # js_insert cmp x ys)"

definition js_sort :: "('a \<Rightarrow> 'a \<Rightarrow> int) \<Rightarrow> 'a list \<Rightarrow> 'a list" where
  "js_sort cmp xs = foldr (js_insert cmp) xs []"

text \<open>
  \<open>xs.slice(start)\<close>: a negative start counts from the end and is clipped at the
  beginning of the array; \<open>-0\<close> is \<open>0\<close>, so \<open>slice(-0)\<close> keeps the whole array.
\<close>

definition js_slice_from :: "int \<Rightarrow> 'a list \<Rightarrow> 'a list" where
  "js_slice_from start xs =
     (if start < 0 then drop (nat (max (int (length xs) + start) 0)) xs
      else drop (nat start) xs)"

text \<open>\<open>Array.prototype.findIndex\<close>; \<open>None\<close> stands for the result \<open>-1\<close>.\<close>

fun findIndex :: "('a \<Rightarrow> bool) \<Rightarrow> 'a list \<Rightarrow> nat option" where
  "findIndex P [] = None"
| "findIndex P (x # xs) = (if P x then Some 0 else map_option Suc (findIndex P xs))"

text \<open>The values held in a device's open state bag and in command parameters.\<close>

datatype jsval = JNum real | JStr string | JBool bool | JNull

type_synonym bag = "string \<rightharpoonup> jsval"

section \<open>Quaternary logic: collapse, entanglement, decision\<close>

datatype TriState = TRUE | FALSE | SUPERPOSITION

datatype QuatState = ENTANGLEMENT

datatype decision_action = PROCEED_LOCAL | SKIP_LOCAL | DEFER_UNTIL_COLLAPSE | ORCHESTRATE_SYNC

record DecisionContext =
  userId :: string
  features :: "real list"
  emotionVector :: "(string \<rightharpoonup> real) option"
  frictionScore :: "real option"
  multiDeviceContext :: "bool option"
  deviceIds :: "string list option"

record DecisionResult =
  action :: decision_action
  confidence :: jsnum
  triState :: TriState
  quatState :: "QuatState option"
  reasoning :: string

definition collapseQubit :: "real \<Rightarrow> TriState" where
  "collapseQubit observation =
     (if observation < 33 / 100 then FALSE
      else if observation < 66 / 100 then TRUE
      else SUPERPOSITION)"

definition checkEntanglement :: "'a DecisionContext_scheme \<Rightarrow> bool" where
  "checkEntanglement context =
     (multiDeviceContext context = Some True \<and>
      (case deviceIds context of None \<Rightarrow> False | Some ids \<Rightarrow> 1 < length ids))"

text \<open>
  The engine's generator is a closure over its own state: a call returns an observation
  and leaves the generator in a new state. \<open>Math.random\<close> is any such function; the
  seeded generator is the linear congruential one below, for an integer seed (\<open>%\<close> takes
  the sign of the dividend).
\<close>

type_synonym 's rng = "'s \<Rightarrow> real \<times> 's"

definition js_rem :: "int \<Rightarrow> int \<Rightarrow> int" where
  "js_rem a b = sgn a * (\<bar>a\<bar> mod \<bar>b\<bar>)"

definition seededRandom :: "int rng" where
  "seededRandom seed =
     (let seed' = js_rem (seed * 9301 + 49297) 233280
      in (real_of_int seed' / 233280, seed'))"

text \<open>\<open>context.features.map\<close>: one draw per feature, left to right; the feature's value is not read.\<close>

fun collapse_features :: "'s rng \<Rightarrow> 's \<Rightarrow> real list \<Rightarrow> TriState list \<times> 's" where
  "collapse_features rng s [] = ([], s)"
| "collapse_features rng s (feature # fs) =
     (case rng s of (observation, s1) \<Rightarrow>
        (case collapse_features rng s1 fs of (ts, s2) \<Rightarrow> (collapseQubit observation # ts, s2)))"

definition count_trit :: "TriState \<Rightarrow> TriState list \<Rightarrow> nat" where
  "count_trit v trits = length (filter (\<lambda>t. t = v) trits)"

text \<open>\<open>Object.entries(triCounts)\<close>: the keys in the order the literal declares them.\<close>

definition triCounts :: "TriState list \<Rightarrow> (TriState \<times> nat) list" where
  "triCounts trits =
     [(TRUE, count_trit TRUE trits),
      (FALSE, count_trit FALSE trits),
      (SUPERPOSITION, count_trit SUPERPOSITION trits)]"

definition by_count_desc :: "TriState \<times> nat \<Rightarrow> TriState \<times> nat \<Rightarrow> int" where
  "by_count_desc x y = int (snd y) - int (snd x)"

definition majorityTriState :: "TriState list \<Rightarrow> TriState" where
  "majorityTriState trits = fst (hd (js_sort by_count_desc (triCounts trits)))"

text \<open>\<open>Math.max(...values)\<close> of counts, which are never negative.\<close>

definition math_max :: "nat list \<Rightarrow> nat" where
  "math_max xs = foldr max xs 0"

definition decide_trits :: "'a DecisionContext_scheme \<Rightarrow> TriState list \<Rightarrow> DecisionResult" where
  "decide_trits context trits =
     (let majority = majorityTriState trits;
          hasEntanglement = checkEntanglement context;
          (act, why) =
            (if hasEntanglement \<and> majority = TRUE then
               (ORCHESTRATE_SYNC, ''Multi-device synchronization required for this action'')
             else if majority = TRUE then
               (PROCEED_LOCAL, ''Majority vote indicates proceed'')
             else if majority = FALSE then
               (SKIP_LOCAL, ''Majority vote indicates skip'')
             else
               (DEFER_UNTIL_COLLAPSE,
                ''Superposition state detected; deferring until more data available''));
          conf = js_div (real (math_max (map snd (triCounts trits)))) (real (length trits))
      in \<lparr>action = act, confidence = conf, triState = majority,
          quatState = (if hasEntanglement then Some ENTANGLEMENT else None),
          reasoning = why\<rparr>)"

definition decide :: "'s rng \<Rightarrow> 's \<Rightarrow> 'a DecisionContext_scheme \<Rightarrow> DecisionResult \<times> 's" where
  "decide rng s context =
     (case collapse_features rng s (features context) of
        (trits, s') \<Rightarrow> (decide_trits context trits, s'))"

section \<open>Friction score\<close>





text \<open>The trits \<open>decide\<close> draws for a context: the tallies are taken over this list.\<close>

definition drawn_trits :: "'s rng \<Rightarrow> 's \<Rightarrow> 'a DecisionContext_scheme \<Rightarrow> TriState list" where
  "drawn_trits rng s context = fst (collapse_features rng s (features context))"

section \<open>Environmental orchestrator\<close>

datatype deviceType = Light | Thermostat | Speaker | Lock | Camera | Other

record SmartHomeDevice =
  d_id :: string
  d_userId :: string
  d_deviceId :: string
  d_deviceName :: string
  d_deviceType :: deviceType
  d_state :: bag
  d_lastSyncedAt :: "nat option"

record FrictionWindow =
  fw_min :: "real option"
  fw_max :: "real option"

record TimeWindow =
  tw_start :: string
  tw_end :: string

text \<open>
  A condition's emotion thresholds are read through \<open>Object.entries\<close>, so they are kept
  as the list of entries. The emotion vector a caller passes is read by key.
\<close>

record PolicyCondition =
  c_emotionVector :: "(string \<times> real) list option"
  c_frictionScore :: "FrictionWindow option"
  c_timeOfDay :: "TimeWindow option"

record DeviceAction =
  a_deviceId :: string
  a_command :: string
  a_parameters :: bag

record EnvironmentalPolicy =
  p_id :: string
  p_userId :: string
  p_policyName :: string
  p_condition :: PolicyCondition
  p_devices :: "DeviceAction list"
  p_isActive :: bool
  p_createdAt :: nat

record ActionOutcome =
  o_deviceId :: string
  o_command :: string
  o_success :: bool
  o_error :: "string option"

record OrchestrationResult =
  r_policyId :: string
  r_policyName :: string
  r_triggeredAt :: nat
  r_actions :: "ActionOutcome list"

record Engine =
  devices :: "string \<rightharpoonup> SmartHomeDevice list"
  policies :: "string \<rightharpoonup> EnvironmentalPolicy list"
  orchestrationHistory :: "OrchestrationResult list"

text \<open>
  The engine's three fields. A call receives its device or policy as a value, as the
  request handlers pass a freshly parsed body; the registry then owns the record, and the
  only code that changes a stored record is the command step of \<open>executePolicy\<close>.
\<close>

definition new_engine :: Engine where
  "new_engine = \<lparr>devices = Map.empty, policies = Map.empty, orchestrationHistory = []\<rparr>"

definition getDevices :: "Engine \<Rightarrow> string \<Rightarrow> SmartHomeDevice list" where
  "getDevices e uid = (case devices e uid of None \<Rightarrow> [] | Some ds \<Rightarrow> ds)"

definition getPolicies :: "Engine \<Rightarrow> string \<Rightarrow> EnvironmentalPolicy list" where
  "getPolicies e uid = (case policies e uid of None \<Rightarrow> [] | Some ps \<Rightarrow> ps)"

definition registerDevice :: "SmartHomeDevice \<Rightarrow> Engine \<Rightarrow> Engine" where
  "registerDevice device e =
     (let userDevices = (case devices e (d_userId device) of None \<Rightarrow> [] | Some ds \<Rightarrow> ds)
      in case findIndex (\<lambda>d. d_deviceId d = d_deviceId device) userDevices of
           Some existingIndex \<Rightarrow>
             e\<lparr>devices := (devices e)(d_userId device \<mapsto> userDevices[existingIndex := device])\<rparr>
         | None \<Rightarrow>
             e\<lparr>devices := (devices e)(d_userId device \<mapsto> userDevices @ [device])\<rparr>)"

definition createPolicy :: "EnvironmentalPolicy \<Rightarrow> Engine \<Rightarrow> Engine" where
  "createPolicy policy e =
     (let userPolicies = (case policies e (p_userId policy) of None \<Rightarrow> [] | Some ps \<Rightarrow> ps)
      in e\<lparr>policies := (policies e)(p_userId policy \<mapsto> userPolicies @ [policy])\<rparr>)"

text \<open>
  \<open>evaluateCondition\<close>. The wall clock it reads for the time-of-day clause is the
  argument \<open>currentTime\<close>, the local time as \<open>HH:MM\<close>; strings compare lexicographically.
\<close>

definition evaluateCondition ::
  "PolicyCondition \<Rightarrow> (string \<rightharpoonup> real) \<Rightarrow> real \<Rightarrow> string \<Rightarrow> bool" where
  "evaluateCondition condition emotions score currentTime =
     (if (case c_emotionVector condition of
            None \<Rightarrow> False
          | Some entries \<Rightarrow>
              list_ex (\<lambda>(emotion, threshold). js_lt_undef (emotions emotion) threshold) entries)
      then False
      else if (case c_frictionScore condition of
                 None \<Rightarrow> False
               | Some w \<Rightarrow> (case fw_min w of None \<Rightarrow> False | Some m \<Rightarrow> score < m))
      then False
      else if (case c_frictionScore condition of
                 None \<Rightarrow> False
               | Some w \<Rightarrow> (case fw_max w of None \<Rightarrow> False | Some m \<Rightarrow> m < score))
      then False
      else if (case c_timeOfDay condition of
                 None \<Rightarrow> False
               | Some w \<Rightarrow> currentTime < tw_start w \<or> tw_end w < currentTime)
      then False
      else True)"

text \<open>
  \<open>sendDeviceCommand\<close> replaces the device's state bag by the spread of the old bag, the
  parameters and the two command stamps, and returns \<open>true\<close>. All readings of the clock
  during one orchestration call are the one instant \<open>now\<close> (milliseconds).
\<close>

definition sendDeviceCommand ::
  "SmartHomeDevice \<Rightarrow> string \<Rightarrow> bag \<Rightarrow> nat \<Rightarrow> bool \<times> SmartHomeDevice" where
  "sendDeviceCommand device command parameters now =
     (True,
      device\<lparr>d_state := (d_state device ++ parameters)
                 (''lastCommand'' \<mapsto> JStr command, ''lastCommandTime'' \<mapsto> JNum (real now)),
             d_lastSyncedAt := Some now\<rparr>)"

text \<open>
  The body of the loop of \<open>executePolicy\<close>: the outcomes pushed so far and the user's
  device array, whose objects the command step mutates in place.
\<close>

definition execute_step ::
  "nat \<Rightarrow> ActionOutcome list \<times> SmartHomeDevice list \<Rightarrow> DeviceAction \<Rightarrow>
   ActionOutcome list \<times> SmartHomeDevice list" where
  "execute_step now acc actionSpec =
     (case acc of (actions, userDevices) \<Rightarrow>
        (case findIndex (\<lambda>d. d_deviceId d = a_deviceId actionSpec) userDevices of
           Some i \<Rightarrow>
             (case sendDeviceCommand (userDevices ! i) (a_command actionSpec)
                     (a_parameters actionSpec) now of
                (success, device') \<Rightarrow>
                  (actions @
                     [\<lparr>o_deviceId = a_deviceId actionSpec, o_command = a_command actionSpec,
                       o_success = success,
                       o_error = (if success then None else Some ''Device command failed'')\<rparr>],
                   userDevices[i := device']))
         | None \<Rightarrow>
             (actions @
                [\<lparr>o_deviceId = a_deviceId actionSpec, o_command = a_command actionSpec,
                  o_success = False, o_error = Some ''Device not found''\<rparr>],
              userDevices)))"

definition execute_actions ::
  "DeviceAction list \<Rightarrow> nat \<Rightarrow> SmartHomeDevice list \<Rightarrow>
   ActionOutcome list \<times> SmartHomeDevice list" where
  "execute_actions specs now userDevices = foldl (execute_step now) ([], userDevices) specs"

definition executePolicy ::
  "string \<Rightarrow> EnvironmentalPolicy \<Rightarrow> nat \<Rightarrow> Engine \<Rightarrow> OrchestrationResult \<times> Engine" where
  "executePolicy uid policy now e =
     (case execute_actions (p_devices policy) now
             (case devices e uid of None \<Rightarrow> [] | Some ds \<Rightarrow> ds) of
        (actions, userDevices') \<Rightarrow>
          (\<lparr>r_policyId = p_id policy, r_policyName = p_policyName policy,
            r_triggeredAt = now, r_actions = actions\<rparr>,
           (case devices e uid of
              None \<Rightarrow> e
            | Some ds \<Rightarrow> e\<lparr>devices := (devices e)(uid \<mapsto> userDevices')\<rparr>)))"

definition orchestrate_step ::
  "string \<Rightarrow> (string \<rightharpoonup> real) \<Rightarrow> real \<Rightarrow> nat \<Rightarrow> string \<Rightarrow>
   OrchestrationResult list \<times> Engine \<Rightarrow> EnvironmentalPolicy \<Rightarrow>
   OrchestrationResult list \<times> Engine" where
  "orchestrate_step uid emotions score now currentTime acc policy =
     (case acc of (results, e) \<Rightarrow>
        (if \<not> p_isActive policy then (results, e)
         else if evaluateCondition (p_condition policy) emotions score currentTime then
           (case executePolicy uid policy now e of
              (result, e') \<Rightarrow>
                (results @ [result],
                 e'\<lparr>orchestrationHistory := orchestrationHistory e' @ [result]\<rparr>))
         else (results, e)))"

definition orchestrate ::
  "string \<Rightarrow> (string \<rightharpoonup> real) \<Rightarrow> real \<Rightarrow> nat \<Rightarrow> string \<Rightarrow> Engine \<Rightarrow>
   OrchestrationResult list \<times> Engine" where
  "orchestrate uid emotions score now currentTime e =
     foldl (orchestrate_step uid emotions score now currentTime) ([], e)
       (case policies e uid of None \<Rightarrow> [] | Some ps \<Rightarrow> ps)"

text \<open>\<open>getHistory(userId, limit = 50)\<close>; \<open>None\<close> is the omitted limit.\<close>

definition getHistory :: "Engine \<Rightarrow> string \<Rightarrow> int option \<Rightarrow> OrchestrationResult list" where
  "getHistory e uid limit =
     js_slice_from (- (case limit of None \<Rightarrow> 50 | Some l \<Rightarrow> l))
       (filter (\<lambda>r. r_triggeredAt r \<noteq> 0) (orchestrationHistory e))"

text \<open>The calls a client makes on one engine, and the engine they leave behind.\<close>

datatype call =
    RegisterDevice SmartHomeDevice
  | CreatePolicy EnvironmentalPolicy
  | Orchestrate string "string \<rightharpoonup> real" real nat string

fun apply_call :: "Engine \<Rightarrow> call \<Rightarrow> Engine" where
  "apply_call e (RegisterDevice device) = registerDevice device e"
| "apply_call e (CreatePolicy policy) = createPolicy policy e"
| "apply_call e (Orchestrate uid emotions score now currentTime) =
     snd (orchestrate uid emotions score now currentTime e)"

definition run :: "call list \<Rightarrow> Engine" where
  "run calls = foldl apply_call new_engine calls"

section \<open>Sample inputs\<close>

text \<open>The contexts and metrics of the test suite, with two features each.\<close>

definition sample_context :: DecisionContext where
  "sample_context =
     \<lparr>userId = ''user-1'', features = [5 / 10, 5 / 10], emotionVector = None,
      frictionScore = None, multiDeviceContext = Some True,
      deviceIds = Some [''phone'', ''tablet'']\<rparr>"

definition local_context :: DecisionContext where
  "local_context =
     \<lparr>userId = ''user-1'', features = [5 / 10, 5 / 10], emotionVector = None,
      frictionScore = None, multiDeviceContext = None, deviceIds = None\<rparr>"




text \<open>A context of four features, for tallies above one.\<close>

definition four_feature_context :: DecisionContext where
  "four_feature_context =
     \<lparr>userId = ''user-1'', features = [1 / 10, 1 / 2, 9 / 10, 1 / 2], emotionVector = None,
      frictionScore = None, multiDeviceContext = None, deviceIds = None\<rparr>"

text \<open>The devices, policy and emotion vector of the orchestrator's test helpers; a second user
  with a policy of their own; and a condition on an emotion the vector does not carry.\<close>

definition living_room_light :: SmartHomeDevice where
  "living_room_light =
     \<lparr>d_id = ''1'', d_userId = ''user-123'', d_deviceId = ''light-living-room'',
      d_deviceName = ''Living Room Light'', d_deviceType = Light,
      d_state = [''brightness'' \<mapsto> JNum 100, ''color'' \<mapsto> JStr ''white'', ''on'' \<mapsto> JBool True],
      d_lastSyncedAt = Some 1000\<rparr>"

definition main_thermostat :: SmartHomeDevice where
  "main_thermostat =
     \<lparr>d_id = ''2'', d_userId = ''user-123'', d_deviceId = ''thermostat-main'',
      d_deviceName = ''Main Thermostat'', d_deviceType = Thermostat,
      d_state = [''temperature'' \<mapsto> JNum 72, ''mode'' \<mapsto> JStr ''auto'', ''humidity'' \<mapsto> JNum 45],
      d_lastSyncedAt = Some 1000\<rparr>"

definition dimmed_light :: SmartHomeDevice where
  "dimmed_light = living_room_light\<lparr>d_state := [''brightness'' \<mapsto> JNum 50]\<rparr>"

definition dim_light :: DeviceAction where
  "dim_light =
     \<lparr>a_deviceId = ''light-living-room'', a_command = ''set_brightness'',
      a_parameters = [''brightness'' \<mapsto> JNum 60, ''color'' \<mapsto> JStr ''warm'']\<rparr>"

definition play_focus_music :: DeviceAction where
  "play_focus_music =
     \<lparr>a_deviceId = ''speaker-bedroom'', a_command = ''play_playlist'',
      a_parameters = [''playlist'' \<mapsto> JStr ''focus-music'', ''volume'' \<mapsto> JNum 30]\<rparr>"

definition set_temperature :: DeviceAction where
  "set_temperature =
     \<lparr>a_deviceId = ''thermostat-main'', a_command = ''set_temperature'',
      a_parameters = [''temperature'' \<mapsto> JNum 70]\<rparr>"

definition focus_policy :: EnvironmentalPolicy where
  "focus_policy =
     \<lparr>p_id = ''policy-1'', p_userId = ''user-123'', p_policyName = ''Focus Mode'',
      p_condition =
        \<lparr>c_emotionVector = Some [(''focused'', 7 / 10)],
         c_frictionScore = Some \<lparr>fw_min = Some (3 / 10), fw_max = Some (8 / 10)\<rparr>,
         c_timeOfDay = None\<rparr>,
      p_devices = [dim_light, play_focus_music, set_temperature],
      p_isActive = True, p_createdAt = 1000\<rparr>"

definition relax_policy :: EnvironmentalPolicy where
  "relax_policy =
     \<lparr>p_id = ''policy-2'', p_userId = ''user-456'', p_policyName = ''Relax Mode'',
      p_condition = \<lparr>c_emotionVector = None, c_frictionScore = None, c_timeOfDay = None\<rparr>,
      p_devices =
        [\<lparr>a_deviceId = ''lamp-desk'', a_command = ''turn_off'', a_parameters = Map.empty\<rparr>],
      p_isActive = True, p_createdAt = 1000\<rparr>"

definition focused_emotions :: "string \<rightharpoonup> real" where
  "focused_emotions =
     [''bored'' \<mapsto> 1 / 10, ''rushed'' \<mapsto> 2 / 10, ''playful'' \<mapsto> 3 / 10, ''lonely'' \<mapsto> 1 / 10,
      ''focused'' \<mapsto> 8 / 10, ''tired'' \<mapsto> 1 / 10, ''hype'' \<mapsto> 2 / 10]"

definition calm_condition :: PolicyCondition where
  "calm_condition =
     \<lparr>c_emotionVector = Some [(''calm'', 7 / 10)], c_frictionScore = None, c_timeOfDay = None\<rparr>"

definition home_calls :: "call list" where
  "home_calls =
     [RegisterDevice living_room_light, RegisterDevice main_thermostat,
      CreatePolicy focus_policy, CreatePolicy relax_policy,
      Orchestrate ''user-123'' focused_emotions (1 / 2) 2000 ''12:00'']"

definition other_user_call :: call where
  "other_user_call = Orchestrate ''user-456'' focused_emotions (1 / 2) 3000 ''12:01''"

definition registered_home :: "call list" where
  "registered_home = [RegisterDevice living_room_light, RegisterDevice main_thermostat]"

section \<open>Collapse thresholds\<close>

text \<open>
  C8. For every observation \<open>o\<close>, \<open>collapseQubit\<close> returns \<open>FALSE\<close> iff \<open>o < 0.33\<close>,
  \<open>TRUE\<close> iff \<open>0.33 \<le> o < 0.66\<close>, and \<open>SUPERPOSITION\<close> iff \<open>o \<ge> 0.66\<close>; the cut points
  are exact: 0.329 gives \<open>FALSE\<close>, 0.33 gives \<open>TRUE\<close>, 0.659 gives \<open>TRUE\<close>, 0.66 gives
  \<open>SUPERPOSITION\<close>.
\<close>

theorem collapseQubit_thresholds:
  "(collapseQubit obs = FALSE) = (obs < 33 / 100) \<and>
   (collapseQubit obs = TRUE) = (33 / 100 \<le> obs \<and> obs < 66 / 100) \<and>
   (collapseQubit obs = SUPERPOSITION) = (66 / 100 \<le> obs) \<and>
   collapseQubit (329 / 1000) = FALSE \<and>
   collapseQubit (33 / 100) = TRUE \<and>
   collapseQubit (659 / 1000) = TRUE \<and>
   collapseQubit (66 / 100) = SUPERPOSITION"
  by (auto simp: collapseQubit_def)

section \<open>Decision routing\<close>

lemma fst_decide: "fst (decide rng s context) = decide_trits context (drawn_trits rng s context)"
  by (simp add: decide_def drawn_trits_def split: prod.splits)

lemma decide_trits_triState: "triState (decide_trits context ts) = majorityTriState ts"
  by (simp add: decide_trits_def Let_def split: prod.splits)

lemma decide_trits_quatState:
  "quatState (decide_trits context ts) =
     (if checkEntanglement context then Some ENTANGLEMENT else None)"
  by (simp add: decide_trits_def Let_def split: prod.splits)

lemma decide_trits_action:
  "action (decide_trits context ts) =
     (if checkEntanglement context \<and> majorityTriState ts = TRUE then ORCHESTRATE_SYNC
      else if majorityTriState ts = TRUE then PROCEED_LOCAL
      else if majorityTriState ts = FALSE then SKIP_LOCAL
      else DEFER_UNTIL_COLLAPSE)"
  by (simp add: decide_trits_def Let_def split: prod.splits)

lemma decide_trits_confidence:
  "confidence (decide_trits context ts) =
     js_div (real (math_max (map snd (triCounts ts)))) (real (length ts))"
  by (simp add: decide_trits_def Let_def split: prod.splits)

lemma majority_by_counts:
  "majorityTriState ts =
     (if count_trit FALSE ts \<le> count_trit TRUE ts \<and>
         count_trit SUPERPOSITION ts \<le> count_trit TRUE ts then TRUE
      else if count_trit SUPERPOSITION ts \<le> count_trit FALSE ts then FALSE
      else SUPERPOSITION)"
  by (simp add: majorityTriState_def triCounts_def js_sort_def by_count_desc_def)

lemma majority_is_max: "count_trit v ts \<le> count_trit (majorityTriState ts) ts"
  by (cases v) (auto simp: majority_by_counts)

lemma drawn_sample:
  "drawn_trits seededRandom 3 sample_context = [TRUE, FALSE]"
  "drawn_trits seededRandom 7 sample_context = [TRUE, TRUE]"
  "drawn_trits seededRandom 15 sample_context = [SUPERPOSITION, FALSE]"
  "drawn_trits seededRandom 42 sample_context = [SUPERPOSITION, SUPERPOSITION]"
  "drawn_trits seededRandom 7 local_context = [TRUE, TRUE]"
  by (simp_all add: drawn_trits_def sample_context_def local_context_def seededRandom_def
      js_rem_def collapseQubit_def)

lemma entanglement_sample:
  "checkEntanglement sample_context" "\<not> checkEntanglement local_context"
  by (simp_all add: checkEntanglement_def sample_context_def local_context_def)

lemma count_trit_count_list: "count_trit v ts = count_list ts v"
  by (induction ts) (simp_all add: count_trit_def)

lemma seeded_steps:
  "seededRandom 7 = (114404 / 233280, 114404)"
  "seededRandom 114404 = (130821 / 233280, 130821)"
  "seededRandom 130821 = (26938 / 233280, 26938)"
  "seededRandom 26938 = (56915 / 233280, 56915)"
  "seededRandom 2 = (67899 / 233280, 67899)"
  "seededRandom 67899 = (88936 / 233280, 88936)"
  "seededRandom 88936 = (32153 / 233280, 32153)"
  "seededRandom 32153 = (39390 / 233280, 39390)"
  "seededRandom 12 = (160909 / 233280, 160909)"
  "seededRandom 160909 = (172706 / 233280, 172706)"
  "seededRandom 172706 = (21723 / 233280, 21723)"
  "seededRandom 21723 = (74440 / 233280, 74440)"
  by (simp_all add: seededRandom_def js_rem_def)

lemma drawn_four:
  "drawn_trits seededRandom 7 four_feature_context = [TRUE, TRUE, FALSE, FALSE]"
  "drawn_trits seededRandom 2 four_feature_context = [FALSE, TRUE, FALSE, FALSE]"
  "drawn_trits seededRandom 12 four_feature_context =
     [SUPERPOSITION, SUPERPOSITION, FALSE, FALSE]"
  by (simp_all add: drawn_trits_def four_feature_context_def seeded_steps collapseQubit_def)

text \<open>
  C5. In \<open>decide\<close> the majority trit is a trit that occurs most often among the drawn
  trits (occurrences counted by \<open>count_list\<close>), and ties follow the priority \<open>TRUE\<close>,
  \<open>FALSE\<close>, \<open>SUPERPOSITION\<close>: \<open>TRUE\<close> is the majority whenever no trit occurs more often
  than it, and \<open>FALSE\<close> is the majority whenever it occurs more often than \<open>TRUE\<close> and
  \<open>SUPERPOSITION\<close> does not occur more often than it.
\<close>

theorem decide_majority_priority:
  "(\<forall>v. count_list (drawn_trits rng s context) v
          \<le> count_list (drawn_trits rng s context) (triState (fst (decide rng s context)))) \<and>
   (count_list (drawn_trits rng s context) FALSE
      \<le> count_list (drawn_trits rng s context) TRUE \<and>
    count_list (drawn_trits rng s context) SUPERPOSITION
      \<le> count_list (drawn_trits rng s context) TRUE
      \<longrightarrow> triState (fst (decide rng s context)) = TRUE) \<and>
   (count_list (drawn_trits rng s context) TRUE
      < count_list (drawn_trits rng s context) FALSE \<and>
    count_list (drawn_trits rng s context) SUPERPOSITION
      \<le> count_list (drawn_trits rng s context) FALSE
      \<longrightarrow> triState (fst (decide rng s context)) = FALSE)"
proof -
  have top: "count_list ts v \<le> count_list ts (majorityTriState ts)" for ts v
    using majority_is_max [of v ts] by (simp add: count_trit_count_list)
  have pick: "majorityTriState ts =
     (if count_list ts FALSE \<le> count_list ts TRUE \<and>
         count_list ts SUPERPOSITION \<le> count_list ts TRUE then TRUE
      else if count_list ts SUPERPOSITION \<le> count_list ts FALSE then FALSE
      else SUPERPOSITION)" for ts
    using majority_by_counts [of ts] by (simp add: count_trit_count_list)
  show ?thesis
    by (simp add: fst_decide decide_trits_triState top) (simp add: pick)
qed

theorem decide_majority_priority_witness:
  "count_list (drawn_trits seededRandom 7 four_feature_context) TRUE = 2 \<and>
   count_list (drawn_trits seededRandom 7 four_feature_context) FALSE = 2 \<and>
   count_list (drawn_trits seededRandom 7 four_feature_context) SUPERPOSITION = 0 \<and>
   triState (fst (decide seededRandom 7 four_feature_context)) = TRUE \<and>
   count_list (drawn_trits seededRandom 12 four_feature_context) TRUE = 0 \<and>
   count_list (drawn_trits seededRandom 12 four_feature_context) FALSE = 2 \<and>
   count_list (drawn_trits seededRandom 12 four_feature_context) SUPERPOSITION = 2 \<and>
   triState (fst (decide seededRandom 12 four_feature_context)) = FALSE \<and>
   count_list (drawn_trits seededRandom 2 four_feature_context) TRUE = 1 \<and>
   count_list (drawn_trits seededRandom 2 four_feature_context) FALSE = 3 \<and>
   count_list (drawn_trits seededRandom 2 four_feature_context) SUPERPOSITION = 0 \<and>
   triState (fst (decide seededRandom 2 four_feature_context)) = FALSE"
  using decide_majority_priority [of seededRandom 7 four_feature_context]
    decide_majority_priority [of seededRandom 12 four_feature_context]
    decide_majority_priority [of seededRandom 2 four_feature_context]
  by (simp add: drawn_four)

text \<open>
  C4, as the code has it. The claim that \<open>quatState\<close> is \<open>ENTANGLEMENT\<close> only in the
  \<open>ORCHESTRATE_SYNC\<close> row fails: with entanglement and a \<open>SUPERPOSITION\<close> majority the
  action is \<open>DEFER_UNTIL_COLLAPSE\<close> and the result still carries \<open>ENTANGLEMENT\<close>.
\<close>

theorem decide_quatState_counterexample:
  "\<not> ((quatState (fst (decide seededRandom 42 sample_context)) = Some ENTANGLEMENT) =
       (checkEntanglement sample_context \<and>
        triState (fst (decide seededRandom 42 sample_context)) = TRUE)) \<and>
   checkEntanglement sample_context \<and>
   triState (fst (decide seededRandom 42 sample_context)) = SUPERPOSITION \<and>
   action (fst (decide seededRandom 42 sample_context)) = DEFER_UNTIL_COLLAPSE \<and>
   quatState (fst (decide seededRandom 42 sample_context)) = Some ENTANGLEMENT"
  by (simp add: fst_decide decide_trits_triState decide_trits_quatState decide_trits_action
      drawn_sample majority_by_counts count_trit_def entanglement_sample)

text \<open>
  C4, amended. \<open>decide\<close> returns \<open>quatState = ENTANGLEMENT\<close> exactly when entanglement
  holds, whatever the majority trit, and no \<open>quatState\<close> otherwise; the action is
  \<open>ORCHESTRATE_SYNC\<close> exactly when entanglement holds and the majority is \<open>TRUE\<close>,
  \<open>PROCEED_LOCAL\<close> exactly when it does not hold and the majority is \<open>TRUE\<close>,
  \<open>SKIP_LOCAL\<close> exactly when the majority is \<open>FALSE\<close>, and \<open>DEFER_UNTIL_COLLAPSE\<close>
  exactly when the majority is \<open>SUPERPOSITION\<close>.
\<close>

theorem decide_quatState_follows_entanglement:
  "quatState (fst (decide rng s context)) =
     (if checkEntanglement context then Some ENTANGLEMENT else None) \<and>
   (action (fst (decide rng s context)) = ORCHESTRATE_SYNC) =
     (checkEntanglement context \<and> triState (fst (decide rng s context)) = TRUE) \<and>
   (action (fst (decide rng s context)) = PROCEED_LOCAL) =
     (\<not> checkEntanglement context \<and> triState (fst (decide rng s context)) = TRUE) \<and>
   (action (fst (decide rng s context)) = SKIP_LOCAL) =
     (triState (fst (decide rng s context)) = FALSE) \<and>
   (action (fst (decide rng s context)) = DEFER_UNTIL_COLLAPSE) =
     (triState (fst (decide rng s context)) = SUPERPOSITION)"
  by (cases "majorityTriState (drawn_trits rng s context)")
     (simp_all add: fst_decide decide_trits_triState decide_trits_quatState decide_trits_action)

theorem decide_quatState_follows_entanglement_witness:
  "quatState (fst (decide seededRandom 7 sample_context)) = Some ENTANGLEMENT \<and>
   action (fst (decide seededRandom 7 sample_context)) = ORCHESTRATE_SYNC \<and>
   quatState (fst (decide seededRandom 15 sample_context)) = Some ENTANGLEMENT \<and>
   action (fst (decide seededRandom 15 sample_context)) = SKIP_LOCAL \<and>
   quatState (fst (decide seededRandom 7 local_context)) = None \<and>
   action (fst (decide seededRandom 7 local_context)) = PROCEED_LOCAL"
  using decide_quatState_follows_entanglement [of seededRandom 7 sample_context]
    decide_quatState_follows_entanglement [of seededRandom 15 sample_context]
    decide_quatState_follows_entanglement [of seededRandom 7 local_context]
  by (simp add: entanglement_sample fst_decide decide_trits_triState majority_by_counts
      drawn_sample count_trit_def)

text \<open>
  C2, evaluated on the code. For a context whose feature list is empty the tallies are all
  zero, the majority is the first-declared trit \<open>TRUE\<close>, and the confidence is \<open>0 / 0\<close>,
  that is \<open>NaN\<close>, not \<open>0\<close>.
\<close>

theorem decide_empty_features_confidence:
  "confidence (fst (decide rng s (context\<lparr>features := []\<rparr>))) = NaN \<and>
   triState (fst (decide rng s (context\<lparr>features := []\<rparr>))) = TRUE \<and>
   confidence (fst (decide rng s (context\<lparr>features := []\<rparr>))) \<noteq> Finite 0"
  by (simp add: fst_decide decide_trits_triState decide_trits_confidence drawn_trits_def
      majority_by_counts count_trit_def triCounts_def math_max_def js_div_def)

section \<open>Friction score properties\<close>









section \<open>Policy conditions\<close>

lemma evaluateCondition_present_emotions:
  assumes "evaluateCondition condition emotions score currentTime"
    and "c_emotionVector condition = Some entries"
    and "(emotion, threshold) \<in> set entries"
    and "emotions emotion = Some v"
  shows "threshold \<le> v"
proof (rule ccontr)
  assume "\<not> threshold \<le> v"
  with assms(3,4) have "list_ex (\<lambda>(emotion, threshold). js_lt_undef (emotions emotion) threshold) entries"
    by (force simp: list_ex_iff js_lt_undef_def)
  with assms(1,2) show False by (simp add: evaluateCondition_def)
qed

text \<open>
  C1, evaluated on the code. The emotion clause compares the value read from the input
  vector with \<open><\<close>; a missing value is \<open>undefined\<close>, the comparison is false, and the
  clause passes. The vector below carries the seven emotions of \<open>EmotionVector\<close> and no
  \<open>calm\<close>: the condition \<open>calm \<ge> 0.7\<close> matches it, while it does not match the same
  vector with \<open>calm\<close> stored as \<open>0\<close>. So a missing emotion is not treated as \<open>0\<close>.
\<close>

theorem evaluateCondition_missing_emotion_matches:
  "focused_emotions ''calm'' = None \<and>
   evaluateCondition calm_condition focused_emotions (1 / 2) ''12:00'' \<and>
   \<not> evaluateCondition calm_condition (focused_emotions(''calm'' \<mapsto> 0)) (1 / 2) ''12:00''"
  by (simp add: evaluateCondition_def calm_condition_def focused_emotions_def js_lt_undef_def)

section \<open>Policy execution\<close>

lemma findIndex_Some: "findIndex P xs = Some i \<Longrightarrow> i < length xs \<and> P (xs ! i)"
  by (induction xs arbitrary: i) (auto split: if_splits)

lemma findIndex_None: "(findIndex P xs = None) = (\<forall>x\<in>set xs. \<not> P x)"
  by (induction xs) auto

lemma findIndex_key_map:
  "map f xs = map f ys \<Longrightarrow> findIndex (\<lambda>d. f d = k) xs = findIndex (\<lambda>d. f d = k) ys"
proof (induction xs arbitrary: ys)
  case Nil
  then show ?case by simp
next
  case (Cons x xs)
  then obtain y ys' where "ys = y # ys'" by (cases ys) auto
  with Cons show ?case by auto
qed

lemma map_update_same: "i < length xs \<Longrightarrow> f y = f (xs ! i) \<Longrightarrow> map f (xs[i := y]) = map f xs"
  by (simp add: map_update list_update_same_conv)

lemma execute_step_unfold:
  "execute_step now (outs, ds) a =
     (case findIndex (\<lambda>d. d_deviceId d = a_deviceId a) ds of
        Some i \<Rightarrow>
          (outs @ [\<lparr>o_deviceId = a_deviceId a, o_command = a_command a, o_success = True,
                    o_error = None\<rparr>],
           ds[i := snd (sendDeviceCommand (ds ! i) (a_command a) (a_parameters a) now)])
      | None \<Rightarrow>
          (outs @ [\<lparr>o_deviceId = a_deviceId a, o_command = a_command a, o_success = False,
                    o_error = Some ''Device not found''\<rparr>],
           ds))"
  by (simp add: execute_step_def sendDeviceCommand_def split: option.splits)

lemma sendDeviceCommand_keys:
  "d_deviceId (snd (sendDeviceCommand d c p now)) = d_deviceId d"
  "d_userId (snd (sendDeviceCommand d c p now)) = d_userId d"
  by (simp_all add: sendDeviceCommand_def)

lemma execute_step_keys:
  "map d_deviceId (snd (execute_step now (outs, ds) a)) = map d_deviceId ds"
  "map d_userId (snd (execute_step now (outs, ds) a)) = map d_userId ds"
  by (auto simp: execute_step_unfold sendDeviceCommand_keys map_update_same
      split: option.splits dest: findIndex_Some)

lemma execute_actions_snoc:
  "execute_actions (specs @ [a]) now ds = execute_step now (execute_actions specs now ds) a"
  by (simp add: execute_actions_def)

lemma execute_actions_append:
  "snd (execute_actions (pre @ post) now ds) =
     snd (execute_actions post now (snd (execute_actions pre now ds)))"
proof (induction post rule: rev_induct)
  case Nil
  then show ?case by (simp add: execute_actions_def)
next
  case (snoc a post)
  have "execute_actions (pre @ post @ [a]) now ds =
      execute_step now (execute_actions (pre @ post) now ds) a"
    using execute_actions_snoc [of "pre @ post" a now ds] by simp
  moreover have "snd (execute_step now acc a) = snd (execute_step now (outs, snd acc) a)" for acc outs
    by (cases acc) (simp add: execute_step_unfold split: option.splits)
  ultimately show ?case
    using snoc by (metis execute_actions_snoc prod.collapse)
qed

lemma execute_actions_deviceIds:
  "map d_deviceId (snd (execute_actions specs now ds)) = map d_deviceId ds"
proof (induction specs rule: rev_induct)
  case Nil
  show ?case by (simp add: execute_actions_def)
next
  case (snoc a specs)
  obtain outs ds' where acc: "execute_actions specs now ds = (outs, ds')"
    by (cases "execute_actions specs now ds")
  with snoc have "map d_deviceId ds' = map d_deviceId ds" by simp
  then show ?case by (simp add: execute_actions_snoc acc execute_step_keys)
qed

lemma execute_actions_userIds:
  "map d_userId (snd (execute_actions specs now ds)) = map d_userId ds"
proof (induction specs rule: rev_induct)
  case Nil
  show ?case by (simp add: execute_actions_def)
next
  case (snoc a specs)
  obtain outs ds' where acc: "execute_actions specs now ds = (outs, ds')"
    by (cases "execute_actions specs now ds")
  with snoc have "map d_userId ds' = map d_userId ds" by simp
  then show ?case by (simp add: execute_actions_snoc acc execute_step_keys)
qed

lemma execute_actions_outcomes:
  "fst (execute_actions specs now ds) =
     map (\<lambda>a. if a_deviceId a \<in> d_deviceId ` set ds
              then \<lparr>o_deviceId = a_deviceId a, o_command = a_command a, o_success = True,
                    o_error = None\<rparr>
              else \<lparr>o_deviceId = a_deviceId a, o_command = a_command a, o_success = False,
                    o_error = Some ''Device not found''\<rparr>) specs"
proof (induction specs rule: rev_induct)
  case Nil
  then show ?case by (simp add: execute_actions_def)
next
  case (snoc a specs)
  obtain outs ds' where acc: "execute_actions specs now ds = (outs, ds')"
    by (cases "execute_actions specs now ds")
  have keys: "map d_deviceId ds' = map d_deviceId ds"
    using execute_actions_deviceIds [of specs now ds] acc by simp
  have idx: "findIndex (\<lambda>d. d_deviceId d = a_deviceId a) ds' =
      findIndex (\<lambda>d. d_deviceId d = a_deviceId a) ds"
    by (rule findIndex_key_map [OF keys])
  have reg: "(findIndex (\<lambda>d. d_deviceId d = a_deviceId a) ds = None) =
      (a_deviceId a \<notin> d_deviceId ` set ds)"
    unfolding findIndex_None by force
  show ?case
    using snoc acc idx reg
    by (cases "findIndex (\<lambda>d. d_deviceId d = a_deviceId a) ds")
       (auto simp: execute_actions_snoc execute_step_unfold)
qed

lemma run_snoc: "run (calls @ [c]) = apply_call (run calls) c"
  by (simp add: run_def)

lemma getDevices_registerDevice:
  "getDevices (registerDevice device e) uid =
     (if uid = d_userId device then
        (case findIndex (\<lambda>d. d_deviceId d = d_deviceId device) (getDevices e uid) of
           Some i \<Rightarrow> (getDevices e uid)[i := device]
         | None \<Rightarrow> getDevices e uid @ [device])
      else getDevices e uid)"
  by (simp add: registerDevice_def getDevices_def Let_def split: option.splits)

lemma getDevices_createPolicy: "getDevices (createPolicy policy e) uid = getDevices e uid"
  by (simp add: createPolicy_def getDevices_def Let_def)

lemma getDevices_executePolicy:
  "getDevices (snd (executePolicy uid policy now e)) u =
     (if u = uid then snd (execute_actions (p_devices policy) now (getDevices e uid))
      else getDevices e u)"
proof (cases "devices e uid")
  case None
  have "map d_deviceId (snd (execute_actions (p_devices policy) now [])) = []"
    using execute_actions_deviceIds [of "p_devices policy" now "[]"] by simp
  then have "snd (execute_actions (p_devices policy) now []) = []" by simp
  with None show ?thesis
    by (simp add: executePolicy_def getDevices_def split: prod.splits)
next
  case (Some ds)
  then show ?thesis
    by (simp add: executePolicy_def getDevices_def split: prod.splits)
qed

lemma fst_executePolicy:
  "fst (executePolicy uid policy now e) =
     \<lparr>r_policyId = p_id policy, r_policyName = p_policyName policy, r_triggeredAt = now,
      r_actions = fst (execute_actions (p_devices policy) now (getDevices e uid))\<rparr>"
  by (simp add: executePolicy_def getDevices_def split: prod.splits)


lemma executePolicy_keys:
  "map d_deviceId (getDevices (snd (executePolicy uid policy now e)) u) =
     map d_deviceId (getDevices e u)"
  "map d_userId (getDevices (snd (executePolicy uid policy now e)) u) =
     map d_userId (getDevices e u)"
  by (simp_all add: getDevices_executePolicy execute_actions_deviceIds execute_actions_userIds)

lemma getDevices_history_update:
  "getDevices (e\<lparr>orchestrationHistory := h\<rparr>) u = getDevices e u"
  by (simp add: getDevices_def)

lemma orchestrate_step_keys:
  "map d_deviceId (getDevices (snd (orchestrate_step uid em sc now ct (rs, e) p)) u) =
     map d_deviceId (getDevices e u)"
  "map d_userId (getDevices (snd (orchestrate_step uid em sc now ct (rs, e) p)) u) =
     map d_userId (getDevices e u)"
  using executePolicy_keys [of uid p now e u]
  by (auto simp: orchestrate_step_def getDevices_history_update split: prod.splits)

lemma orchestrate_loop_keys:
  "map d_deviceId (getDevices (snd (foldl (orchestrate_step uid em sc now ct) (rs, e) ps)) u) =
     map d_deviceId (getDevices e u) \<and>
   map d_userId (getDevices (snd (foldl (orchestrate_step uid em sc now ct) (rs, e) ps)) u) =
     map d_userId (getDevices e u)"
proof (induction ps arbitrary: rs e)
  case Nil
  show ?case by simp
next
  case (Cons p ps)
  obtain rs' e' where step: "orchestrate_step uid em sc now ct (rs, e) p = (rs', e')"
    by (cases "orchestrate_step uid em sc now ct (rs, e) p")
  have "map d_deviceId (getDevices e' u) = map d_deviceId (getDevices e u)"
    and "map d_userId (getDevices e' u) = map d_userId (getDevices e u)"
    using orchestrate_step_keys [of uid em sc now ct rs e p u] step by simp_all
  with Cons [of rs' e'] step show ?case by simp
qed

lemma orchestrate_keys:
  "map d_deviceId (getDevices (snd (orchestrate uid em sc now ct e)) u) =
     map d_deviceId (getDevices e u)"
  "map d_userId (getDevices (snd (orchestrate uid em sc now ct e)) u) =
     map d_userId (getDevices e u)"
  by (simp_all add: orchestrate_def orchestrate_loop_keys)

lemma registerDevice_keeps_registry:
  assumes "distinct (map d_deviceId (getDevices e uid))"
    and "set (map d_userId (getDevices e uid)) \<subseteq> {uid}"
  shows "distinct (map d_deviceId (getDevices (registerDevice device e) uid)) \<and>
    set (map d_userId (getDevices (registerDevice device e) uid)) \<subseteq> {uid}"
proof (cases "uid = d_userId device")
  case False
  with assms show ?thesis by (simp add: getDevices_registerDevice)
next
  case True
  show ?thesis
  proof (cases "findIndex (\<lambda>d. d_deviceId d = d_deviceId device) (getDevices e uid)")
    case None
    then have "d_deviceId device \<notin> set (map d_deviceId (getDevices e uid))"
      by (auto simp: findIndex_None)
    with assms True None show ?thesis by (simp add: getDevices_registerDevice)
  next
    case (Some i)
    from findIndex_Some [OF Some]
    have i: "i < length (getDevices e uid)"
      and same: "d_deviceId (getDevices e uid ! i) = d_deviceId device" by simp_all
    have "map d_deviceId ((getDevices e uid)[i := device]) = map d_deviceId (getDevices e uid)"
      using i same by (simp add: map_update_same)
    moreover have "set ((getDevices e uid)[i := device]) \<subseteq> insert device (set (getDevices e uid))"
      by (rule set_update_subset_insert)
    ultimately show ?thesis
      using assms True Some by (auto simp: getDevices_registerDevice)
  qed
qed

lemma reachable_registry:
  "distinct (map d_deviceId (getDevices (run calls) uid)) \<and>
   set (map d_userId (getDevices (run calls) uid)) \<subseteq> {uid}"
proof (induction calls rule: rev_induct)
  case Nil
  show ?case by (simp add: run_def new_engine_def getDevices_def)
next
  case (snoc c calls)
  show ?case
  proof (cases c)
    case (RegisterDevice device)
    with snoc registerDevice_keeps_registry show ?thesis by (simp add: run_snoc)
  next
    case (CreatePolicy policy)
    with snoc show ?thesis by (simp add: run_snoc getDevices_createPolicy)
  next
    case (Orchestrate u em sc now ct)
    with snoc show ?thesis by (simp add: run_snoc orchestrate_keys)
  qed
qed

lemma distinct_key_filter:
  "distinct (map f xs) \<Longrightarrow> x \<in> set xs \<Longrightarrow> filter (\<lambda>y. f y = f x) xs = [x]"
proof (induction xs)
  case Nil
  then show ?case by simp
next
  case (Cons y ys)
  then show ?case
    by (cases "x = y") (auto simp: filter_empty_conv image_iff)
qed

lemma registerDevice_member:
  "device \<in> set (getDevices (registerDevice device e) (d_userId device))"
  by (auto simp: getDevices_registerDevice set_update_memI split: option.splits
      dest: findIndex_Some)

lemma sendDeviceCommand_unfold:
  "sendDeviceCommand d c p now =
     (True, d\<lparr>d_state := (d_state d ++ p)
                 (''lastCommand'' \<mapsto> JStr c, ''lastCommandTime'' \<mapsto> JNum (real now)),
              d_lastSyncedAt := Some now\<rparr>)"
  by (simp add: sendDeviceCommand_def)

lemma execute_actions_registered_step:
  assumes "findIndex (\<lambda>d. d_deviceId d = a_deviceId a) ds = Some i"
  shows "snd (execute_actions (pre @ [a]) now ds) =
     (snd (execute_actions pre now ds))
       [i := (snd (execute_actions pre now ds) ! i)
               \<lparr>d_state := (d_state (snd (execute_actions pre now ds) ! i) ++ a_parameters a)
                    (''lastCommand'' \<mapsto> JStr (a_command a),
                     ''lastCommandTime'' \<mapsto> JNum (real now)),
                 d_lastSyncedAt := Some now\<rparr>]"
proof -
  obtain outs ds' where acc: "execute_actions pre now ds = (outs, ds')"
    by (cases "execute_actions pre now ds")
  have "map d_deviceId ds' = map d_deviceId ds"
    using execute_actions_deviceIds [of pre now ds] acc by simp
  then have "findIndex (\<lambda>d. d_deviceId d = a_deviceId a) ds' = Some i"
    using assms findIndex_key_map [of d_deviceId ds' ds "a_deviceId a"] by simp
  then show ?thesis
    by (simp add: execute_actions_snoc acc execute_step_unfold sendDeviceCommand_unfold)
qed

lemma home_devices:
  "getDevices (run registered_home) ''user-123'' = [living_room_light, main_thermostat]"
  by (simp add: run_def registered_home_def new_engine_def registerDevice_def getDevices_def
      living_room_light_def main_thermostat_def)

text \<open>
  C7. Executing a policy records, for every entry of its action list and in list order, one
  outcome: \<open>success = false\<close> with error \<open>Device not found\<close> when the device id is not
  registered for the user, \<open>success = true\<close> with no error when it is; an unregistered
  device stops nothing. When the loop reaches an action whose device is registered, that
  device's state bag becomes the old bag overwritten by the action's parameters and by the
  two command stamps, the other devices stay as they are, and the remaining actions run
  on the registry so updated.
\<close>

theorem executePolicy_continue_on_error:
  "r_actions (fst (executePolicy uid policy now e)) =
     map (\<lambda>a. if a_deviceId a \<in> d_deviceId ` set (getDevices e uid)
              then \<lparr>o_deviceId = a_deviceId a, o_command = a_command a, o_success = True,
                    o_error = None\<rparr>
              else \<lparr>o_deviceId = a_deviceId a, o_command = a_command a, o_success = False,
                    o_error = Some ''Device not found''\<rparr>) (p_devices policy) \<and>
   (\<forall>pre a post i.
      p_devices policy = pre @ a # post \<and>
      findIndex (\<lambda>d. d_deviceId d = a_deviceId a) (getDevices e uid) = Some i \<longrightarrow>
      snd (execute_actions (pre @ [a]) now (getDevices e uid)) =
        (snd (execute_actions pre now (getDevices e uid)))
          [i := (snd (execute_actions pre now (getDevices e uid)) ! i)
                  \<lparr>d_state :=
                     (d_state (snd (execute_actions pre now (getDevices e uid)) ! i) ++
                      a_parameters a)
                       (''lastCommand'' \<mapsto> JStr (a_command a),
                        ''lastCommandTime'' \<mapsto> JNum (real now)),
                    d_lastSyncedAt := Some now\<rparr>] \<and>
      getDevices (snd (executePolicy uid policy now e)) uid =
        snd (execute_actions post now
               (snd (execute_actions (pre @ [a]) now (getDevices e uid)))))"
proof (intro conjI allI impI)
  show "r_actions (fst (executePolicy uid policy now e)) =
     map (\<lambda>a. if a_deviceId a \<in> d_deviceId ` set (getDevices e uid)
              then \<lparr>o_deviceId = a_deviceId a, o_command = a_command a, o_success = True,
                    o_error = None\<rparr>
              else \<lparr>o_deviceId = a_deviceId a, o_command = a_command a, o_success = False,
                    o_error = Some ''Device not found''\<rparr>) (p_devices policy)"
    by (simp add: fst_executePolicy execute_actions_outcomes)
next
  fix pre a post i
  assume h: "p_devices policy = pre @ a # post \<and>
      findIndex (\<lambda>d. d_deviceId d = a_deviceId a) (getDevices e uid) = Some i"
  then show "snd (execute_actions (pre @ [a]) now (getDevices e uid)) =
        (snd (execute_actions pre now (getDevices e uid)))
          [i := (snd (execute_actions pre now (getDevices e uid)) ! i)
                  \<lparr>d_state :=
                     (d_state (snd (execute_actions pre now (getDevices e uid)) ! i) ++
                      a_parameters a)
                       (''lastCommand'' \<mapsto> JStr (a_command a),
                        ''lastCommandTime'' \<mapsto> JNum (real now)),
                    d_lastSyncedAt := Some now\<rparr>]"
    by (simp add: execute_actions_registered_step)
  from h have "getDevices (snd (executePolicy uid policy now e)) uid =
      snd (execute_actions ((pre @ [a]) @ post) now (getDevices e uid))"
    by (simp add: getDevices_executePolicy)
  also have "\<dots> = snd (execute_actions post now
               (snd (execute_actions (pre @ [a]) now (getDevices e uid))))"
    by (rule execute_actions_append)
  finally show "getDevices (snd (executePolicy uid policy now e)) uid =
        snd (execute_actions post now
               (snd (execute_actions (pre @ [a]) now (getDevices e uid))))" .
qed

theorem executePolicy_continue_on_error_witness:
  "r_actions (fst (executePolicy ''user-123'' focus_policy 2000 (run registered_home))) =
     [\<lparr>o_deviceId = ''light-living-room'', o_command = ''set_brightness'', o_success = True,
       o_error = None\<rparr>,
      \<lparr>o_deviceId = ''speaker-bedroom'', o_command = ''play_playlist'', o_success = False,
       o_error = Some ''Device not found''\<rparr>,
      \<lparr>o_deviceId = ''thermostat-main'', o_command = ''set_temperature'', o_success = True,
       o_error = None\<rparr>] \<and>
   p_devices focus_policy = [dim_light, play_focus_music] @ set_temperature # [] \<and>
   findIndex (\<lambda>d. d_deviceId d = a_deviceId set_temperature)
     (getDevices (run registered_home) ''user-123'') = Some 1 \<and>
   d_state (getDevices (snd (executePolicy ''user-123'' focus_policy 2000 (run registered_home)))
              ''user-123'' ! 1) ''temperature'' = Some (JNum 70) \<and>
   d_state (getDevices (snd (executePolicy ''user-123'' focus_policy 2000 (run registered_home)))
              ''user-123'' ! 1) ''mode'' = Some (JStr ''auto'') \<and>
   d_state (getDevices (snd (executePolicy ''user-123'' focus_policy 2000 (run registered_home)))
              ''user-123'' ! 1) ''lastCommand'' = Some (JStr ''set_temperature'') \<and>
   d_state (getDevices (snd (executePolicy ''user-123'' focus_policy 2000 (run registered_home)))
              ''user-123'' ! 0) ''brightness'' = Some (JNum 60) \<and>
   d_state (getDevices (snd (executePolicy ''user-123'' focus_policy 2000 (run registered_home)))
              ''user-123'' ! 0) ''on'' = Some (JBool True)"
proof -
  note claim = executePolicy_continue_on_error
    [of "''user-123''" focus_policy 2000 "run registered_home"]
  have split: "p_devices focus_policy = [dim_light, play_focus_music] @ set_temperature # []"
    by (simp add: focus_policy_def)
  have idx: "findIndex (\<lambda>d. d_deviceId d = a_deviceId set_temperature)
      (getDevices (run registered_home) ''user-123'') = Some 1"
    by (simp add: home_devices living_room_light_def main_thermostat_def set_temperature_def)
  have pre: "snd (execute_actions [dim_light, play_focus_music] 2000
        [living_room_light, main_thermostat]) =
      [living_room_light
         \<lparr>d_state := (d_state living_room_light ++ a_parameters dim_light)
            (''lastCommand'' \<mapsto> JStr ''set_brightness'', ''lastCommandTime'' \<mapsto> JNum 2000),
          d_lastSyncedAt := Some 2000\<rparr>,
       main_thermostat]"
    by (simp add: execute_actions_def execute_step_unfold sendDeviceCommand_unfold
        living_room_light_def main_thermostat_def dim_light_def play_focus_music_def)
  from claim have outs:
    "r_actions (fst (executePolicy ''user-123'' focus_policy 2000 (run registered_home))) =
       map (\<lambda>a. if a_deviceId a \<in> d_deviceId ` set (getDevices (run registered_home) ''user-123'')
              then \<lparr>o_deviceId = a_deviceId a, o_command = a_command a, o_success = True,
                    o_error = None\<rparr>
              else \<lparr>o_deviceId = a_deviceId a, o_command = a_command a, o_success = False,
                    o_error = Some ''Device not found''\<rparr>) (p_devices focus_policy)"
    by (rule conjunct1)
  note step = claim [THEN conjunct2, rule_format,
      of "[dim_light, play_focus_music]" set_temperature "[]" 1, OF conjI [OF split idx]]
  have after:
    "getDevices (snd (executePolicy ''user-123'' focus_policy 2000 (run registered_home)))
        ''user-123'' =
      [living_room_light
         \<lparr>d_state := (d_state living_room_light ++ a_parameters dim_light)
            (''lastCommand'' \<mapsto> JStr ''set_brightness'', ''lastCommandTime'' \<mapsto> JNum 2000),
          d_lastSyncedAt := Some 2000\<rparr>,
       main_thermostat
         \<lparr>d_state := (d_state main_thermostat ++ a_parameters set_temperature)
            (''lastCommand'' \<mapsto> JStr (a_command set_temperature),
             ''lastCommandTime'' \<mapsto> JNum 2000),
          d_lastSyncedAt := Some 2000\<rparr>]"
    unfolding step [THEN conjunct2] step [THEN conjunct1] home_devices pre
    by (simp add: execute_actions_def execute_step_unfold sendDeviceCommand_unfold
        living_room_light_def main_thermostat_def dim_light_def play_focus_music_def
        set_temperature_def)
  have first: "r_actions (fst (executePolicy ''user-123'' focus_policy 2000 (run registered_home))) =
     [\<lparr>o_deviceId = ''light-living-room'', o_command = ''set_brightness'', o_success = True,
       o_error = None\<rparr>,
      \<lparr>o_deviceId = ''speaker-bedroom'', o_command = ''play_playlist'', o_success = False,
       o_error = Some ''Device not found''\<rparr>,
      \<lparr>o_deviceId = ''thermostat-main'', o_command = ''set_temperature'', o_success = True,
       o_error = None\<rparr>]"
    unfolding outs
    by (simp add: home_devices focus_policy_def living_room_light_def main_thermostat_def
        dim_light_def play_focus_music_def set_temperature_def)
  have states:
    "d_state (getDevices (snd (executePolicy ''user-123'' focus_policy 2000 (run registered_home)))
              ''user-123'' ! 1) ''temperature'' = Some (JNum 70)"
    "d_state (getDevices (snd (executePolicy ''user-123'' focus_policy 2000 (run registered_home)))
              ''user-123'' ! 1) ''mode'' = Some (JStr ''auto'')"
    "d_state (getDevices (snd (executePolicy ''user-123'' focus_policy 2000 (run registered_home)))
              ''user-123'' ! 1) ''lastCommand'' = Some (JStr ''set_temperature'')"
    "d_state (getDevices (snd (executePolicy ''user-123'' focus_policy 2000 (run registered_home)))
              ''user-123'' ! 0) ''brightness'' = Some (JNum 60)"
    "d_state (getDevices (snd (executePolicy ''user-123'' focus_policy 2000 (run registered_home)))
              ''user-123'' ! 0) ''on'' = Some (JBool True)"
    unfolding after
    by (simp_all add: living_room_light_def main_thermostat_def dim_light_def set_temperature_def)
  from first split idx states show ?thesis by blast
qed

lemma orchestrate_step_results:
  "set (fst (orchestrate_step uid em sc now ct (rs, e) p)) \<subseteq>
     insert (fst (executePolicy uid p now e)) (set rs)"
  by (auto simp: orchestrate_step_def split: prod.splits)

lemma no_command_failure_outcomes:
  "out \<in> set (r_actions (fst (executePolicy uid policy now e))) \<Longrightarrow>
     o_error out \<noteq> Some ''Device command failed''"
  by (auto simp: fst_executePolicy execute_actions_outcomes)

lemma orchestrate_loop_results:
  assumes "\<forall>r\<in>set rs. \<forall>out\<in>set (r_actions r). o_error out \<noteq> Some ''Device command failed''"
  shows "\<forall>r\<in>set (fst (foldl (orchestrate_step uid em sc now ct) (rs, e) ps)).
           \<forall>out\<in>set (r_actions r). o_error out \<noteq> Some ''Device command failed''"
  using assms
proof (induction ps arbitrary: rs e)
  case Nil
  then show ?case by simp
next
  case (Cons p ps)
  obtain rs' e' where step: "orchestrate_step uid em sc now ct (rs, e) p = (rs', e')"
    by (cases "orchestrate_step uid em sc now ct (rs, e) p")
  have "set rs' \<subseteq> insert (fst (executePolicy uid p now e)) (set rs)"
    using orchestrate_step_results [of uid em sc now ct rs e p] step by simp
  then have "\<forall>r\<in>set rs'. \<forall>out\<in>set (r_actions r). o_error out \<noteq> Some ''Device command failed''"
    using Cons.prems no_command_failure_outcomes by blast
  from Cons.IH [OF this, of e'] step show ?case by simp
qed

lemma home_orchestrate_results:
  "fst (orchestrate ''user-123'' focused_emotions (1 / 2) 2000 ''12:00''
         (run (registered_home @ [CreatePolicy focus_policy]))) =
     [\<lparr>r_policyId = ''policy-1'', r_policyName = ''Focus Mode'', r_triggeredAt = 2000,
       r_actions =
         [\<lparr>o_deviceId = ''light-living-room'', o_command = ''set_brightness'',
           o_success = True, o_error = None\<rparr>,
          \<lparr>o_deviceId = ''speaker-bedroom'', o_command = ''play_playlist'',
           o_success = False, o_error = Some ''Device not found''\<rparr>,
          \<lparr>o_deviceId = ''thermostat-main'', o_command = ''set_temperature'',
           o_success = True, o_error = None\<rparr>]\<rparr>]"
  by (simp add: run_def registered_home_def new_engine_def registerDevice_def createPolicy_def
      orchestrate_def orchestrate_step_def executePolicy_def execute_actions_def execute_step_def
      sendDeviceCommand_def evaluateCondition_def js_lt_undef_def
      living_room_light_def main_thermostat_def focus_policy_def
      dim_light_def play_focus_music_def set_temperature_def focused_emotions_def)

text \<open>
  C10. The device-command step returns \<open>true\<close> whatever its arguments. So in the result
  of an executed policy the outcome of every action whose device is registered has
  \<open>success = true\<close> and no error, and no outcome, of \<open>executePolicy\<close> or of a whole
  \<open>orchestrate\<close> call, carries the error \<open>Device command failed\<close>.
\<close>

theorem device_command_never_fails:
  "fst (sendDeviceCommand device command parameters now) = True \<and>
   length (r_actions (fst (executePolicy uid policy now e))) = length (p_devices policy) \<and>
   (\<forall>i < length (p_devices policy).
      a_deviceId (p_devices policy ! i) \<in> d_deviceId ` set (getDevices e uid) \<longrightarrow>
      o_success (r_actions (fst (executePolicy uid policy now e)) ! i) \<and>
      o_error (r_actions (fst (executePolicy uid policy now e)) ! i) = None) \<and>
   (\<forall>out \<in> set (r_actions (fst (executePolicy uid policy now e))).
      o_error out \<noteq> Some ''Device command failed'') \<and>
   (\<forall>r \<in> set (fst (orchestrate uid em sc now ct e)). \<forall>out \<in> set (r_actions r).
      o_error out \<noteq> Some ''Device command failed'')"
proof (intro conjI)
  show "fst (sendDeviceCommand device command parameters now) = True"
    by (simp add: sendDeviceCommand_def)
  show "length (r_actions (fst (executePolicy uid policy now e))) = length (p_devices policy)"
    by (simp add: fst_executePolicy execute_actions_outcomes)
  show "\<forall>i < length (p_devices policy).
      a_deviceId (p_devices policy ! i) \<in> d_deviceId ` set (getDevices e uid) \<longrightarrow>
      o_success (r_actions (fst (executePolicy uid policy now e)) ! i) \<and>
      o_error (r_actions (fst (executePolicy uid policy now e)) ! i) = None"
    by (simp add: fst_executePolicy execute_actions_outcomes)
  show "\<forall>out \<in> set (r_actions (fst (executePolicy uid policy now e))).
      o_error out \<noteq> Some ''Device command failed''"
    using no_command_failure_outcomes by blast
  show "\<forall>r \<in> set (fst (orchestrate uid em sc now ct e)). \<forall>out \<in> set (r_actions r).
      o_error out \<noteq> Some ''Device command failed''"
    unfolding orchestrate_def by (rule orchestrate_loop_results) simp
qed

theorem device_command_never_fails_witness:
  "(2::nat) < length (p_devices focus_policy) \<and>
   a_deviceId (p_devices focus_policy ! 2) \<in>
     d_deviceId ` set (getDevices (run registered_home) ''user-123'') \<and>
   o_success (r_actions (fst (executePolicy ''user-123'' focus_policy 2000
                                (run registered_home))) ! 2) \<and>
   o_error (r_actions (fst (executePolicy ''user-123'' focus_policy 2000
                              (run registered_home))) ! 2) = None \<and>
   length (r_actions (fst (executePolicy ''user-123'' focus_policy 2000
                             (run registered_home)))) = 3 \<and>
   length (fst (orchestrate ''user-123'' focused_emotions (1 / 2) 2000 ''12:00''
                  (run (registered_home @ [CreatePolicy focus_policy])))) = 1"
proof -
  note claim = device_command_never_fails
    [of living_room_light "''set_brightness''" Map.empty 2000 "''user-123''" focus_policy
        "run registered_home" focused_emotions "1 / 2" "''12:00''"]
  have len: "(2::nat) < length (p_devices focus_policy)"
    by (simp add: focus_policy_def)
  have reg: "a_deviceId (p_devices focus_policy ! 2) \<in>
      d_deviceId ` set (getDevices (run registered_home) ''user-123'')"
    by (simp add: home_devices focus_policy_def set_temperature_def main_thermostat_def)
  from claim len reg have
    "o_success (r_actions (fst (executePolicy ''user-123'' focus_policy 2000
                                (run registered_home))) ! 2) \<and>
     o_error (r_actions (fst (executePolicy ''user-123'' focus_policy 2000
                              (run registered_home))) ! 2) = None"
    by blast
  moreover from claim have
    "length (r_actions (fst (executePolicy ''user-123'' focus_policy 2000
                             (run registered_home)))) = 3"
    by (simp add: focus_policy_def)
  ultimately show ?thesis
    using len reg by (simp add: home_orchestrate_results)
qed

section \<open>Device registry\<close>

text \<open>
  C9. After any sequence of \<open>registerDevice\<close>, \<open>createPolicy\<close> and \<open>orchestrate\<close> calls
  on a new engine, the devices listed for a user have pairwise different device ids and
  all belong to that user, so there is at most one record per (user, device id). After
  one more \<open>registerDevice\<close> the only record with the device's id is the
  registered one; and when the id was already registered, at index \<open>i\<close>, the list is the
  old one with the record at \<open>i\<close> replaced by the new record.
\<close>

theorem registry_one_record_per_device:
  "distinct (map d_deviceId (getDevices (run calls) uid)) \<and>
   list_all (\<lambda>d. d_userId d = uid) (getDevices (run calls) uid) \<and>
   filter (\<lambda>d. d_deviceId d = d_deviceId device)
     (getDevices (registerDevice device (run calls)) (d_userId device)) = [device] \<and>
   (\<forall>i. findIndex (\<lambda>d. d_deviceId d = d_deviceId device)
          (getDevices (run calls) (d_userId device)) = Some i \<longrightarrow>
        getDevices (registerDevice device (run calls)) (d_userId device) =
          (getDevices (run calls) (d_userId device))[i := device])"
proof (intro conjI allI impI)
  show "distinct (map d_deviceId (getDevices (run calls) uid))"
    using reachable_registry [of calls uid] by simp
  show "list_all (\<lambda>d. d_userId d = uid) (getDevices (run calls) uid)"
    using reachable_registry [of calls uid] by (auto simp: list_all_iff)
  have "distinct (map d_deviceId
      (getDevices (run (calls @ [RegisterDevice device])) (d_userId device)))"
    using reachable_registry [of "calls @ [RegisterDevice device]" "d_userId device"] by simp
  then have "distinct (map d_deviceId
      (getDevices (registerDevice device (run calls)) (d_userId device)))"
    by (simp add: run_snoc)
  then show "filter (\<lambda>d. d_deviceId d = d_deviceId device)
     (getDevices (registerDevice device (run calls)) (d_userId device)) = [device]"
    using registerDevice_member by (rule distinct_key_filter)
next
  fix i
  assume "findIndex (\<lambda>d. d_deviceId d = d_deviceId device)
          (getDevices (run calls) (d_userId device)) = Some i"
  then show "getDevices (registerDevice device (run calls)) (d_userId device) =
          (getDevices (run calls) (d_userId device))[i := device]"
    by (simp add: getDevices_registerDevice)
qed

lemma home_calls_devices:
  "map d_deviceId (getDevices (run home_calls) ''user-123'') =
     [''light-living-room'', ''thermostat-main'']"
proof -
  have "run home_calls =
      apply_call
        (apply_call (apply_call (run registered_home) (CreatePolicy focus_policy))
           (CreatePolicy relax_policy))
        (Orchestrate ''user-123'' focused_emotions (1 / 2) 2000 ''12:00'')"
    by (simp add: run_def home_calls_def registered_home_def)
  then show ?thesis
    by (simp add: orchestrate_keys getDevices_createPolicy home_devices
        living_room_light_def main_thermostat_def)
qed

theorem registry_one_record_per_device_witness:
  "findIndex (\<lambda>d. d_deviceId d = d_deviceId dimmed_light)
     (getDevices (run home_calls) (d_userId dimmed_light)) = Some 0 \<and>
   length (getDevices (run home_calls) ''user-123'') = 2 \<and>
   length (getDevices (registerDevice dimmed_light (run home_calls)) ''user-123'') = 2 \<and>
   getDevices (registerDevice dimmed_light (run home_calls)) ''user-123'' ! 0 = dimmed_light \<and>
   d_state (getDevices (registerDevice dimmed_light (run home_calls)) ''user-123'' ! 0)
     ''brightness'' = Some (JNum 50) \<and>
   d_state (getDevices (registerDevice dimmed_light (run home_calls)) ''user-123'' ! 0)
     ''on'' = None \<and>
   filter (\<lambda>d. d_deviceId d = ''light-living-room'')
     (getDevices (registerDevice dimmed_light (run home_calls)) ''user-123'') = [dimmed_light]"
proof -
  note claim = registry_one_record_per_device [of home_calls "''user-123''" dimmed_light]
  have uid: "d_userId dimmed_light = ''user-123''" and did: "d_deviceId dimmed_light = ''light-living-room''"
    by (simp_all add: dimmed_light_def living_room_light_def)
  have len: "length (getDevices (run home_calls) ''user-123'') = 2"
    using arg_cong [OF home_calls_devices, of length] by simp
  have first: "d_deviceId (getDevices (run home_calls) ''user-123'' ! 0) = ''light-living-room''"
    using arg_cong [OF home_calls_devices, of "\<lambda>xs. xs ! 0"] len by simp
  have idx: "findIndex (\<lambda>d. d_deviceId d = d_deviceId dimmed_light)
     (getDevices (run home_calls) (d_userId dimmed_light)) = Some 0"
    using len first unfolding uid did
    by (cases "getDevices (run home_calls) ''user-123''") simp_all
  from claim idx have upd: "getDevices (registerDevice dimmed_light (run home_calls)) ''user-123'' =
      (getDevices (run home_calls) ''user-123'')[0 := dimmed_light]"
    unfolding uid by blast
  from claim have one: "filter (\<lambda>d. d_deviceId d = ''light-living-room'')
     (getDevices (registerDevice dimmed_light (run home_calls)) ''user-123'') = [dimmed_light]"
    unfolding uid did by blast
  have st: "d_state dimmed_light ''brightness'' = Some (JNum 50)" "d_state dimmed_light ''on'' = None"
    by (simp_all add: dimmed_light_def)
  from idx len one st show ?thesis
    unfolding upd by simp
qed

section \<open>Orchestration history\<close>

text \<open>
  C3, evaluated on the code. \<open>getHistory\<close> does not read its user argument: it returns
  the tail of the one history of the engine. After the second user's orchestration, the
  first user's history holds the second user's result as well.
\<close>

theorem getHistory_returns_other_users_results:
  "map r_policyId (getHistory (run home_calls) ''user-123'' None) = [''policy-1''] \<and>
   map r_policyId (getHistory (run (home_calls @ [other_user_call])) ''user-123'' None) =
     [''policy-1'', ''policy-2''] \<and>
   getHistory (run (home_calls @ [other_user_call])) ''user-123'' None \<noteq>
     getHistory (run home_calls) ''user-123'' None \<and>
   p_userId relax_policy = ''user-456'' \<and>
   getHistory e uid limit = getHistory e uid' limit"
proof -
  have h1: "map r_policyId (getHistory (run home_calls) ''user-123'' None) = [''policy-1'']"
    by (simp add: getHistory_def js_slice_from_def
        run_def home_calls_def new_engine_def registerDevice_def createPolicy_def
        orchestrate_def orchestrate_step_def executePolicy_def execute_actions_def
        execute_step_def sendDeviceCommand_def evaluateCondition_def js_lt_undef_def
        living_room_light_def main_thermostat_def focus_policy_def relax_policy_def
        dim_light_def play_focus_music_def set_temperature_def focused_emotions_def)
  have h2: "map r_policyId (getHistory (run (home_calls @ [other_user_call])) ''user-123'' None) =
     [''policy-1'', ''policy-2'']"
    by (simp add: getHistory_def js_slice_from_def other_user_call_def
        run_def home_calls_def new_engine_def registerDevice_def createPolicy_def
        orchestrate_def orchestrate_step_def executePolicy_def execute_actions_def
        execute_step_def sendDeviceCommand_def evaluateCondition_def js_lt_undef_def
        living_room_light_def main_thermostat_def focus_policy_def relax_policy_def
        dim_light_def play_focus_music_def set_temperature_def focused_emotions_def)
  have h3: "getHistory (run (home_calls @ [other_user_call])) ''user-123'' None \<noteq>
     getHistory (run home_calls) ''user-123'' None"
    using h1 h2 by (metis list.inject not_Cons_self2)
  have h4: "p_userId relax_policy = ''user-456''"
    by (simp add: relax_policy_def)
  have h5: "getHistory e uid limit = getHistory e uid' limit"
    by (simp add: getHistory_def)
  from h1 h2 h3 h4 h5 show ?thesis by blast
qed

end
